theory Spec2Isabelle
  imports Main
begin

section \<open>Data model\<close>

text \<open>
  The service worker of the Blood Eagle game (\<^verbatim>\<open>service-worker.js\<close>) works on three
  kinds of platform objects: requests, responses and the origin's cache storage.
  A request is read through its \<^verbatim>\<open>method\<close>, \<^verbatim>\<open>url\<close> and \<^verbatim>\<open>mode\<close>; a response through its
  \<^verbatim>\<open>status\<close>, \<^verbatim>\<open>type\<close>, \<^verbatim>\<open>headers\<close> and body text. Header names are kept in lower case,
  as the platform's \<^verbatim>\<open>Headers\<close> object normalises them. The script reads no request header
  and requests carry none here: two requests for one URL never differ in a header that
  the \<^verbatim>\<open>Vary\<close> header of a stored response names.
\<close>

record request =
  "method" :: string
  url :: string
  mode :: string

record response =
  status :: nat
  type :: string
  headers :: "(string \<times> string) list"
  body :: string

text \<open>
  A \<^verbatim>\<open>Cache\<close> maps request identities to responses and keeps insertion order (the order
  of \<^verbatim>\<open>cache.keys()\<close>). The identity of a request is its URL without the fragment, which
  the platform leaves out when it compares a request with the entries of a cache. The
  \<^verbatim>\<open>CacheStorage\<close> (\<^verbatim>\<open>caches\<close>) maps cache names to caches and keeps creation order (the
  order of \<^verbatim>\<open>caches.keys()\<close> and of \<^verbatim>\<open>caches.match\<close>).
\<close>

type_synonym cache = "(string \<times> response) list"
type_synonym storage = "(string \<times> cache) list"

text \<open>The network: \<^verbatim>\<open>fetch(request)\<close> resolves with a response or rejects (\<open>None\<close>).\<close>

type_synonym network = "request \<Rightarrow> response option"

text \<open>How a promise handed to \<^verbatim>\<open>event.waitUntil\<close> settles.\<close>

datatype settled = Fulfilled | Rejected

text \<open>
  A JavaScript value as far as \<^verbatim>\<open>manifestData.version !== currentVersion\<close> looks at it:
  \<^verbatim>\<open>undefined\<close>, a string, or anything else (never strictly equal to a string).
\<close>

datatype jsval = Undefined | Str string | Other

text \<open>
  What the script takes from its environment and does not define itself. The type \<open>'v\<close>
  is the type of parsed JSON values.
  \<^item> \<open>origin\<close>: \<^verbatim>\<open>self.location.origin\<close>;
  \<^item> \<open>stringify\<close>: \<^verbatim>\<open>JSON.stringify\<close>, \<open>None\<close> when it throws;
  \<^item> \<open>parse\<close>: \<^verbatim>\<open>response.json()\<close> on a body text, \<open>None\<close> when it rejects;
  \<^item> \<open>truthy\<close>: JavaScript truthiness of a parsed value;
  \<^item> \<open>version_field\<close>: the property read \<^verbatim>\<open>manifestData.version\<close>, \<open>None\<close> when it throws
    (the manifest parsed to \<^verbatim>\<open>null\<close>);
  \<^item> \<open>date_parse\<close>: the time value of \<^verbatim>\<open>new Date(s)\<close> for a non-empty string, in
    milliseconds since the epoch, \<open>None\<close> for an invalid date (\<^verbatim>\<open>NaN\<close>);
  \<^item> \<open>has_sync\<close>: whether \<^verbatim>\<open>self.registration.sync\<close> is there.
\<close>

record 'v platform =
  origin :: string
  stringify :: "'v \<Rightarrow> string option"
  parse :: "string \<Rightarrow> 'v option"
  truthy :: "'v \<Rightarrow> bool"
  version_field :: "'v \<Rightarrow> jsval option"
  date_parse :: "string \<Rightarrow> int option"
  has_sync :: bool

section \<open>Platform operations\<close>

subsection \<open>Strings\<close>

definition js_startsWith :: "string \<Rightarrow> string \<Rightarrow> bool" where
  "js_startsWith s p = (take (length p) s = p)"

fun js_includes :: "string \<Rightarrow> string \<Rightarrow> bool" where
  "js_includes [] p = (p = [])"
| "js_includes (c # s) p = (js_startsWith (c # s) p \<or> js_includes s p)"

text \<open>
  \<^verbatim>\<open>s.split(sep)\<close> for a non-empty separator (the script only splits on \<^verbatim>\<open>'-v'\<close>); \<open>acc\<close>
  holds the current piece, reversed.
\<close>

fun split_from :: "string \<Rightarrow> string \<Rightarrow> string \<Rightarrow> string list" where
  "split_from sep acc [] = [rev acc]"
| "split_from sep acc (c # s) =
     (if sep \<noteq> [] \<and> js_startsWith (c # s) sep
      then rev acc # split_from sep [] (drop (length sep - 1) s)
      else split_from sep (c # acc) s)"

definition js_split :: "string \<Rightarrow> string \<Rightarrow> string list" where
  "js_split s sep = split_from sep [] s"

text \<open>
  A URL given as a string to the cache or to \<^verbatim>\<open>fetch\<close> is resolved against the worker's
  own location. The worker is served from the root of its origin (its asset list names
  it \<^verbatim>\<open>/service-worker.js\<close>), so a path is appended to the origin and an absolute URL is
  kept.
\<close>

definition resolve_url :: "string \<Rightarrow> string \<Rightarrow> string" where
  "resolve_url org u =
     (if js_startsWith u ''/'' then org @ u
      else if js_includes u ''://'' then u
      else org @ ''/'' @ u)"

text \<open>The identity of a request in a cache: its URL up to the fragment.\<close>

definition request_identity :: "string \<Rightarrow> string" where
  "request_identity u = takeWhile (\<lambda>c. c \<noteq> CHR ''#'') u"

text \<open>
  The origin of a serialised URL: the scheme, \<^verbatim>\<open>://\<close> and the host with its port, that is
  everything before the path, the query or the fragment; empty when the text has no
  scheme. \<open>acc\<close> holds the characters read so far, reversed.
\<close>

fun origin_from :: "string \<Rightarrow> string \<Rightarrow> string" where
  "origin_from acc [] = []"
| "origin_from acc (c # s) =
     (if js_startsWith (c # s) ''://''
      then rev acc @ ''://'' @ takeWhile (\<lambda>x. x \<notin> set ''/?#'') (drop 2 s)
      else if c \<in> set ''/?#'' then []
      else origin_from (c # acc) s)"

definition url_origin :: "string \<Rightarrow> string" where
  "url_origin u = origin_from [] u"

text \<open>The members of a comma-separated header value, without the blanks around them.\<close>

definition trim :: "string \<Rightarrow> string" where
  "trim s =
     rev (dropWhile (\<lambda>c. c = CHR '' '' \<or> c = CHR 0x09)
       (rev (dropWhile (\<lambda>c. c = CHR '' '' \<or> c = CHR 0x09) s)))"

definition field_values :: "string \<Rightarrow> string list" where
  "field_values v = map trim (js_split v '','')"

subsection \<open>Cache\<close>

text \<open>
  The entry of an identity (\<^verbatim>\<open>cache.match\<close>), the removal of an entry (\<^verbatim>\<open>cache.delete\<close>) and
  the write of an entry, which replaces the entry of that identity and comes last.
\<close>

definition cache_match :: "cache \<Rightarrow> string \<Rightarrow> response option" where
  "cache_match c k = map_of c k"

definition cache_delete :: "string \<Rightarrow> cache \<Rightarrow> cache" where
  "cache_delete k c = filter (\<lambda>e. fst e \<noteq> k) c"

definition cache_store :: "string \<Rightarrow> response \<Rightarrow> cache \<Rightarrow> cache" where
  "cache_store k r c = cache_delete k c @ [(k, r)]"

text \<open>
  \<^verbatim>\<open>cache.put\<close> rejects, writing nothing, a response of status \<^verbatim>\<open>206\<close> and a response whose
  \<^verbatim>\<open>Vary\<close> header has the member \<^verbatim>\<open>*\<close> (\<open>None\<close>). Its other refusals do not arise here: the
  script puts \<^verbatim>\<open>GET\<close> requests only, and responses whose body has not been read.
\<close>

definition vary_star :: "response \<Rightarrow> bool" where
  "vary_star r =
     (case map_of (headers r) ''vary'' of
        None \<Rightarrow> False
      | Some v \<Rightarrow> ''*'' \<in> set (field_values v))"

definition put_rejects :: "response \<Rightarrow> bool" where
  "put_rejects r = (status r = 206 \<or> vary_star r)"

definition cache_put :: "string \<Rightarrow> response \<Rightarrow> cache \<Rightarrow> cache option" where
  "cache_put k r c = (if put_rejects r then None else Some (cache_store k r c))"

definition cache_keys :: "cache \<Rightarrow> string list" where
  "cache_keys c = map fst c"

text \<open>\<^verbatim>\<open>response.ok\<close>: a status in the range 200 to 299.\<close>

definition ok :: "response \<Rightarrow> bool" where
  "ok r = (200 \<le> status r \<and> status r \<le> 299)"

text \<open>
  \<^verbatim>\<open>cache.addAll(urls)\<close> fetches every URL and rejects, writing nothing, as soon as one
  fetch rejects or answers with a status that is not \<^verbatim>\<open>ok\<close>, with status \<^verbatim>\<open>206\<close> or with
  \<^verbatim>\<open>Vary: *\<close>; otherwise it stores each response under its request.
\<close>

fun fetch_all :: "network \<Rightarrow> request list \<Rightarrow> (string \<times> response) list option" where
  "fetch_all net [] = Some []"
| "fetch_all net (q # qs) =
     (case net q of
        None \<Rightarrow> None
      | Some r \<Rightarrow>
          if \<not> ok r \<or> put_rejects r then None
          else (case fetch_all net qs of
                  None \<Rightarrow> None
                | Some rs \<Rightarrow> Some ((request_identity (url q), r) # rs)))"

definition url_request :: "string \<Rightarrow> string \<Rightarrow> request" where
  "url_request org u = \<lparr>method = ''GET'', url = resolve_url org u, mode = ''cors''\<rparr>"

definition cache_addAll :: "string \<Rightarrow> network \<Rightarrow> string list \<Rightarrow> cache \<Rightarrow> cache option" where
  "cache_addAll org net urls c =
     (case fetch_all net (map (url_request org) urls) of
        None \<Rightarrow> None
      | Some rs \<Rightarrow> Some (fold (\<lambda>e. cache_store (fst e) (snd e)) rs c))"

subsection \<open>CacheStorage\<close>

definition caches_keys :: "storage \<Rightarrow> string list" where
  "caches_keys st = map fst st"

text \<open>\<^verbatim>\<open>caches.open(name)\<close> creates an empty cache when there is none of that name.\<close>

definition caches_open :: "string \<Rightarrow> storage \<Rightarrow> storage" where
  "caches_open n st = (if n \<in> set (caches_keys st) then st else st @ [(n, [])])"

definition caches_delete :: "string \<Rightarrow> storage \<Rightarrow> storage" where
  "caches_delete n st = filter (\<lambda>e. fst e \<noteq> n) st"

text \<open>The cache of a name, and an operation applied to the cache of a name.\<close>

definition cache_of :: "storage \<Rightarrow> string \<Rightarrow> cache" where
  "cache_of st n = (case map_of st n of None \<Rightarrow> [] | Some c \<Rightarrow> c)"

definition in_cache :: "string \<Rightarrow> (cache \<Rightarrow> cache) \<Rightarrow> storage \<Rightarrow> storage" where
  "in_cache n f st = map (\<lambda>e. if fst e = n then (fst e, f (snd e)) else e) st"

text \<open>
  \<^verbatim>\<open>caches.match(request)\<close> asks every cache of the storage, in creation order, for the
  identity of the request and answers with the first entry found.
\<close>

fun caches_find :: "storage \<Rightarrow> string \<Rightarrow> response option" where
  "caches_find [] k = None"
| "caches_find (e # st) k =
     (case cache_match (snd e) k of
        Some r \<Rightarrow> Some r
      | None \<Rightarrow> caches_find st k)"

definition caches_match :: "storage \<Rightarrow> string \<Rightarrow> response option" where
  "caches_match st u = caches_find st (request_identity u)"

section \<open>The service worker\<close>

definition CACHE_NAME :: string where
  "CACHE_NAME = ''blood-eagle-v1.0.0''"

definition OFFLINE_URL :: string where
  "OFFLINE_URL = ''index_new.html''"

definition STATIC_ASSETS :: "string list" where
  "STATIC_ASSETS =
     [''/'',
      ''/index_new.html'',
      ''/blood_eagle_game.html'',
      ''/manifest.json'',
      ''/service-worker.js'',
      ''https://fonts.googleapis.com/css2?family=Tajawal:wght@300;400;700;900&family=Cairo:wght@300;400;600;700&display=swap'',
      ''https://cdnjs.cloudflare.com/ajax/libs/font-awesome/6.5.1/css/all.min.css'']"

subsection \<open>Install\<close>

text \<open>
  The promise given to \<^verbatim>\<open>event.waitUntil\<close> is
  \<^verbatim>\<open>caches.open(CACHE_NAME).then(addAll).then(skipWaiting).catch(log)\<close>. When \<^verbatim>\<open>addAll\<close>
  rejects, the second \<^verbatim>\<open>then\<close> is skipped and the final \<^verbatim>\<open>catch\<close> logs the error and returns
  normally, so the promise is fulfilled.
\<close>

record install_outcome =
  install_promise :: settled
  install_storage :: storage
  skip_waiting_called :: bool
  cache_failed_logged :: bool

definition install :: "string \<Rightarrow> network \<Rightarrow> storage \<Rightarrow> install_outcome" where
  "install org net st =
     (let st1 = caches_open CACHE_NAME st in
      case cache_addAll org net STATIC_ASSETS (cache_of st1 CACHE_NAME) of
        Some c \<Rightarrow>
          \<lparr>install_promise = Fulfilled,
           install_storage = in_cache CACHE_NAME (\<lambda>_. c) st1,
           skip_waiting_called = True,
           cache_failed_logged = False\<rparr>
      | None \<Rightarrow>
          \<lparr>install_promise = Fulfilled,
           install_storage = st1,
           skip_waiting_called = False,
           cache_failed_logged = True\<rparr>)"

subsection \<open>Activate\<close>

text \<open>
  Every cache name that differs from \<^verbatim>\<open>CACHE_NAME\<close> is deleted; then the worker claims the
  open clients. The result is the storage and whether \<^verbatim>\<open>clients.claim()\<close> was called.
\<close>

definition activate :: "storage \<Rightarrow> storage \<times> bool" where
  "activate st =
     (foldl (\<lambda>s cacheName. if cacheName \<noteq> CACHE_NAME then caches_delete cacheName s else s)
        st (caches_keys st),
      True)"

subsection \<open>Fetch\<close>

text \<open>
  The listener either returns without calling \<^verbatim>\<open>event.respondWith\<close> (the browser then
  handles the request itself, over the network), or answers with a promise. The promise
  resolves with a response, or with \<^verbatim>\<open>undefined\<close> (\<open>None\<close>), which the platform turns into
  a network error for the caller.
\<close>

datatype answer = NotIntercepted | RespondWith "response option"

record fetch_outcome =
  answer :: answer
  fetch_storage :: storage
  fetched :: "request list"

text \<open>The test of lines 68 to 70, negated: the URLs the listener goes on with.\<close>

definition handled_url :: "string \<Rightarrow> string \<Rightarrow> bool" where
  "handled_url org u =
     (js_startsWith u org \<or> js_includes u ''fonts.googleapis.com''
      \<or> js_includes u ''cdnjs.cloudflare.com'')"

text \<open>
  A hit of \<^verbatim>\<open>caches.match(event.request)\<close> is returned as it is. On a miss the request is
  fetched; a response that is not \<^verbatim>\<open>200\<close> or not of type \<^verbatim>\<open>basic\<close> is returned without being
  stored, any other is returned and a clone is put into the cache \<^verbatim>\<open>CACHE_NAME\<close> (the
  write is not awaited: the storage of the outcome is the storage once it has landed;
  when \<^verbatim>\<open>cache.put\<close> rejects, nothing handles the rejection and nothing is stored).
  The test \<^verbatim>\<open>!fetchResponse\<close> has no case of its own: a fetch that resolves, resolves with
  a response.
  When the fetch rejects, the \<^verbatim>\<open>catch\<close> answers a navigation with
  \<^verbatim>\<open>caches.match(OFFLINE_URL)\<close> and anything else with \<^verbatim>\<open>undefined\<close>.
\<close>

definition fetch_handler :: "string \<Rightarrow> network \<Rightarrow> storage \<Rightarrow> request \<Rightarrow> fetch_outcome" where
  "fetch_handler org net st req =
     (if method req \<noteq> ''GET'' then
        \<lparr>answer = NotIntercepted, fetch_storage = st, fetched = []\<rparr>
      else if \<not> js_startsWith (url req) org
            \<and> \<not> js_includes (url req) ''fonts.googleapis.com''
            \<and> \<not> js_includes (url req) ''cdnjs.cloudflare.com'' then
        \<lparr>answer = NotIntercepted, fetch_storage = st, fetched = []\<rparr>
      else
        (case caches_match st (url req) of
           Some response \<Rightarrow>
             \<lparr>answer = RespondWith (Some response), fetch_storage = st, fetched = []\<rparr>
         | None \<Rightarrow>
             (case net req of
                Some fetchResponse \<Rightarrow>
                  if status fetchResponse \<noteq> 200 \<or> type fetchResponse \<noteq> ''basic'' then
                    \<lparr>answer = RespondWith (Some fetchResponse), fetch_storage = st,
                     fetched = [req]\<rparr>
                  else
                    \<lparr>answer = RespondWith (Some fetchResponse),
                     fetch_storage =
                       (let st1 = caches_open CACHE_NAME st in
                        case cache_put (request_identity (url req)) fetchResponse
                               (cache_of st1 CACHE_NAME) of
                          None \<Rightarrow> st1
                        | Some c \<Rightarrow> in_cache CACHE_NAME (\<lambda>_. c) st1),
                     fetched = [req]\<rparr>
              | None \<Rightarrow>
                  if mode req = ''navigate'' then
                    \<lparr>answer = RespondWith (caches_match st (resolve_url org OFFLINE_URL)),
                     fetch_storage = st, fetched = [req]\<rparr>
                  else
                    \<lparr>answer = RespondWith None, fetch_storage = st, fetched = [req]\<rparr>)))"

text \<open>
  What the page that made the request gets: the response, or a network error. A request
  the listener did not answer goes to the network.
\<close>

datatype client_result = NetworkError | Got response

definition client_sees :: "network \<Rightarrow> request \<Rightarrow> answer \<Rightarrow> client_result" where
  "client_sees net req a =
     (case a of
        NotIntercepted \<Rightarrow> (case net req of None \<Rightarrow> NetworkError | Some r \<Rightarrow> Got r)
      | RespondWith None \<Rightarrow> NetworkError
      | RespondWith (Some r) \<Rightarrow> Got r)"

subsection \<open>Stored game data\<close>

text \<open>
  \<^verbatim>\<open>storeGameData\<close> builds a response with the single header \<^verbatim>\<open>Content-Type\<close> (status
  \<^verbatim>\<open>200\<close>, as \<^verbatim>\<open>new Response\<close> sets it) and puts it under \<^verbatim>\<open>/game-data\<close>. The argument is
  \<open>None\<close> when the message carries no \<^verbatim>\<open>gameData\<close>: \<^verbatim>\<open>JSON.stringify(undefined)\<close> is
  \<^verbatim>\<open>undefined\<close> and the body is empty. When \<^verbatim>\<open>JSON.stringify\<close> throws or \<^verbatim>\<open>cache.put\<close>
  rejects, the \<^verbatim>\<open>catch\<close> logs and nothing is stored.
\<close>

definition game_data_response :: "string \<Rightarrow> response" where
  "game_data_response text =
     \<lparr>status = 200, type = ''default'',
      headers = [(''content-type'', ''application/json'')], body = text\<rparr>"

definition storeGameData :: "'v platform \<Rightarrow> 'v option \<Rightarrow> storage \<Rightarrow> storage" where
  "storeGameData P gameData st =
     (let st1 = caches_open CACHE_NAME st in
      case (case gameData of None \<Rightarrow> Some [] | Some v \<Rightarrow> stringify P v) of
        None \<Rightarrow> st1
      | Some text \<Rightarrow>
          (case cache_put (resolve_url (origin P) ''/game-data'') (game_data_response text)
                  (cache_of st1 CACHE_NAME) of
             None \<Rightarrow> st1
           | Some c \<Rightarrow> in_cache CACHE_NAME (\<lambda>_. c) st1))"

text \<open>
  \<^verbatim>\<open>getStoredGameData\<close> answers \<^verbatim>\<open>null\<close> (\<open>None\<close>) when there is no entry or when the body
  does not parse.
\<close>

definition getStoredGameData :: "'v platform \<Rightarrow> storage \<Rightarrow> storage \<times> 'v option" where
  "getStoredGameData P st =
     (let st1 = caches_open CACHE_NAME st in
      case cache_match (cache_of st1 CACHE_NAME) (resolve_url (origin P) ''/game-data'') of
        Some gameDataCache \<Rightarrow> (st1, parse P (body gameDataCache))
      | None \<Rightarrow> (st1, None))"

subsection \<open>Background sync\<close>

text \<open>
  \<^verbatim>\<open>syncGameProgress\<close> posts the serialised data to \<^verbatim>\<open>/api/sync-progress\<close> when the
  registration has a sync manager; the answer is only logged. The result is the list of
  posts made, each with its URL and body.
\<close>

definition syncGameProgress :: "'v platform \<Rightarrow> 'v \<Rightarrow> (string \<times> string) list" where
  "syncGameProgress P gameData =
     (if has_sync P then
        (case stringify P gameData of
           None \<Rightarrow> []
         | Some text \<Rightarrow> [(resolve_url (origin P) ''/api/sync-progress'', text)])
      else [])"

text \<open>
  The update notification: its icon and the names of its actions (its title and body
  are fixed Arabic texts, which the model leaves out).
\<close>

record notification =
  icon :: string
  actions :: "string list"

definition update_notification :: notification where
  "update_notification = \<lparr>icon = ''/icon-192x192.png'', actions = [''update'']\<rparr>"

text \<open>\<^verbatim>\<open>CACHE_NAME.split('-v')[1]\<close>.\<close>

definition currentVersion :: jsval where
  "currentVersion =
     (case js_split CACHE_NAME ''-v'' of
        _ # v # _ \<Rightarrow> Str v
      | _ \<Rightarrow> Undefined)"

text \<open>
  \<^verbatim>\<open>checkForUpdates\<close> reads \<^verbatim>\<open>/manifest.json\<close> from the cache \<^verbatim>\<open>CACHE_NAME\<close>. Without an
  entry nothing happens; a body that does not parse, or a failing property read, ends
  in the \<^verbatim>\<open>catch\<close>. The result is the storage and the notifications shown.
\<close>

definition checkForUpdates :: "'v platform \<Rightarrow> storage \<Rightarrow> storage \<times> notification list" where
  "checkForUpdates P st =
     (let st1 = caches_open CACHE_NAME st in
      case cache_match (cache_of st1 CACHE_NAME) (resolve_url (origin P) ''/manifest.json'') of
        None \<Rightarrow> (st1, [])
      | Some manifest \<Rightarrow>
          (case parse P (body manifest) of
             None \<Rightarrow> (st1, [])
           | Some manifestData \<Rightarrow>
               (case version_field P manifestData of
                  None \<Rightarrow> (st1, [])
                | Some version \<Rightarrow>
                    if version \<noteq> currentVersion then (st1, [update_notification])
                    else (st1, []))))"

record sync_outcome =
  sync_storage :: storage
  posts :: "(string \<times> string) list"
  notifications :: "notification list"
  sync_skip_waiting :: bool

definition doBackgroundSync :: "'v platform \<Rightarrow> storage \<Rightarrow> sync_outcome" where
  "doBackgroundSync P st =
     (let (st1, gameData) = getStoredGameData P st;
          sent = (case gameData of
                    None \<Rightarrow> []
                  | Some v \<Rightarrow> if truthy P v then syncGameProgress P v else []);
          (st2, shown) = checkForUpdates P st1
      in \<lparr>sync_storage = st2, posts = sent, notifications = shown,
          sync_skip_waiting = False\<rparr>)"

text \<open>The \<^verbatim>\<open>sync\<close> listener runs a cycle for the tag \<^verbatim>\<open>background-sync\<close> only.\<close>

definition sync_handler :: "'v platform \<Rightarrow> string \<Rightarrow> storage \<Rightarrow> sync_outcome" where
  "sync_handler P tag st =
     (if tag = ''background-sync'' then doBackgroundSync P st
      else \<lparr>sync_storage = st, posts = [], notifications = [], sync_skip_waiting = False\<rparr>)"

subsection \<open>Messages\<close>

text \<open>
  A message event: its data (\<open>None\<close> when there is none), with the \<^verbatim>\<open>type\<close> field (\<open>None\<close>
  when missing) and the \<^verbatim>\<open>gameData\<close> field, and whether it carries a reply port. Without
  a port \<^verbatim>\<open>event.ports[0].postMessage\<close> throws and no reply is posted. An empty \<^verbatim>\<open>type\<close> is
  falsy and the message is ignored, like one without data or type.
\<close>

record 'v message_data =
  mtype :: "string option"
  gameData :: "'v option"

record 'v message_event =
  data :: "'v message_data option"
  has_port :: bool

datatype 'v reply = VersionReply string | DataReply "'v option"

record 'v message_outcome =
  message_storage :: storage
  reply :: "'v reply option"
  message_skip_waiting :: bool

definition message_handler ::
  "'v platform \<Rightarrow> 'v message_event \<Rightarrow> storage \<Rightarrow> 'v message_outcome" where
  "message_handler P event st =
     (let ignored = \<lparr>message_storage = st, reply = None, message_skip_waiting = False\<rparr> in
      case data event of
        None \<Rightarrow> ignored
      | Some d \<Rightarrow>
          (case mtype d of
             None \<Rightarrow> ignored
           | Some t \<Rightarrow>
               if t = [] then ignored
               else if t = ''SKIP_WAITING'' then ignored\<lparr>message_skip_waiting := True\<rparr>
               else if t = ''GET_VERSION'' then
                 ignored\<lparr>reply := (if has_port event then Some (VersionReply CACHE_NAME) else None)\<rparr>
               else if t = ''STORE_GAME_DATA'' then
                 ignored\<lparr>message_storage := storeGameData P (gameData d) st\<rparr>
               else if t = ''GET_STORED_DATA'' then
                 (let (st1, found) = getStoredGameData P st
                  in \<lparr>message_storage = st1,
                      reply = (if has_port event then Some (DataReply found) else None),
                      message_skip_waiting = False\<rparr>)
               else ignored))"

subsection \<open>Cleanup\<close>

definition maxAge :: int where
  "maxAge = 7 * 24 * 60 * 60 * 1000"

text \<open>
  \<^verbatim>\<open>new Date(response.headers.get('date') || 0).getTime()\<close>: a missing or empty header
  gives the epoch, any other text is parsed; \<open>None\<close> is \<^verbatim>\<open>NaN\<close>.
\<close>

definition entry_time :: "'v platform \<Rightarrow> response \<Rightarrow> int option" where
  "entry_time P r =
     (case map_of (headers r) ''date'' of
        None \<Rightarrow> Some 0
      | Some s \<Rightarrow> if s = [] then Some 0 else date_parse P s)"

text \<open>\<^verbatim>\<open>now - date.getTime() > maxAge\<close>; a comparison with \<^verbatim>\<open>NaN\<close> is false.\<close>

definition expired :: "'v platform \<Rightarrow> int \<Rightarrow> response \<Rightarrow> bool" where
  "expired P now r =
     (case entry_time P r of
        None \<Rightarrow> False
      | Some t \<Rightarrow> now - t > maxAge)"

text \<open>
  The loop over \<^verbatim>\<open>cache.keys()\<close>. A key without an entry makes \<^verbatim>\<open>response.headers\<close> throw:
  the enclosing \<^verbatim>\<open>catch\<close> logs and the remaining keys are not looked at.
\<close>

fun cleanup_loop :: "'v platform \<Rightarrow> int \<Rightarrow> string list \<Rightarrow> cache \<Rightarrow> cache" where
  "cleanup_loop P now [] c = c"
| "cleanup_loop P now (k # ks) c =
     (case cache_match c k of
        None \<Rightarrow> c
      | Some r \<Rightarrow>
          if expired P now r then cleanup_loop P now ks (cache_delete k c)
          else cleanup_loop P now ks c)"

definition cleanupOldData :: "'v platform \<Rightarrow> int \<Rightarrow> storage \<Rightarrow> storage" where
  "cleanupOldData P now st =
     (let st1 = caches_open CACHE_NAME st;
          c = cache_of st1 CACHE_NAME
      in in_cache CACHE_NAME (\<lambda>_. cleanup_loop P now (cache_keys c) c) st1)"
subsection \<open>The storages of the worker\<close>



section \<open>Example data\<close>

text \<open>
  Concrete requests, responses, storages and networks, and a small platform, used to run
  the definitions. The worker of the examples is served from \<^verbatim>\<open>https://game.example\<close>.
\<close>

definition example_origin :: string where
  "example_origin = ''https://game.example''"

definition page_response :: response where
  "page_response =
     \<lparr>status = 200, type = ''basic'',
      headers = [(''content-type'', ''text/html''), (''date'', ''Thu, 01 Jan 2026 00:00:00 GMT'')],
      body = ''<html>game</html>''\<rparr>"

definition image_response :: response where
  "image_response =
     \<lparr>status = 200, type = ''basic'', headers = [(''content-type'', ''image/png'')],
      body = ''png''\<rparr>"

definition dated_record :: response where
  "dated_record =
     \<lparr>status = 200, type = ''basic'',
      headers = [(''content-type'', ''application/json''), (''date'', ''Thu, 01 Jan 2026 00:00:00 GMT'')],
      body = ''true''\<rparr>"

definition old_storage :: storage where
  "old_storage =
     [(''blood-eagle-v0.9.0'', [(''https://game.example/'', image_response)]),
      (CACHE_NAME, [(''https://game.example/'', page_response)])]"

definition home_storage :: storage where
  "home_storage = [(CACHE_NAME, [(''https://game.example/'', page_response)])]"

definition offline_ready_storage :: storage where
  "offline_ready_storage = [(CACHE_NAME, [(''https://game.example/index_new.html'', page_response)])]"

definition dated_storage :: storage where
  "dated_storage = [(CACHE_NAME, [(''https://game.example/game-data'', dated_record)])]"

definition home_navigation :: request where
  "home_navigation =
     \<lparr>method = ''GET'', url = ''https://game.example/'', mode = ''navigate''\<rparr>"

definition game_navigation :: request where
  "game_navigation =
     \<lparr>method = ''GET'', url = ''https://game.example/blood_eagle_game.html'', mode = ''navigate''\<rparr>"

definition level_request :: request where
  "level_request =
     \<lparr>method = ''GET'', url = ''https://game.example/level1.png'', mode = ''no-cors''\<rparr>"

definition varying_response :: response where
  "varying_response =
     \<lparr>status = 200, type = ''basic'',
      headers = [(''content-type'', ''application/json''), (''vary'', ''*'')],
      body = ''[]''\<rparr>"

definition scores_request :: request where
  "scores_request =
     \<lparr>method = ''GET'', url = ''https://game.example/api/scores'', mode = ''cors''\<rparr>"


definition offline :: network where
  "offline = (\<lambda>q. None)"

definition online :: network where
  "online = (\<lambda>q. Some image_response)"

definition manifest_missing :: network where
  "manifest_missing =
     (\<lambda>q. if url q = ''https://game.example/manifest.json'' then None else Some page_response)"

text \<open>
  The example platform reads and writes a fragment of JSON: \<^verbatim>\<open>null\<close>, the booleans and
  objects whose members are strings. Its parser knows the documents of a fixed list and
  rejects every other text.
\<close>

datatype json = JNull | JBool bool | JObject "(string \<times> string) list"

definition quoted :: "string \<Rightarrow> string" where
  "quoted s = CHR 0x22 # s @ [CHR 0x22]"

fun members :: "(string \<times> string) list \<Rightarrow> string" where
  "members [] = []"
| "members [f] = quoted (fst f) @ '':'' @ quoted (snd f)"
| "members (f # g # fs) = quoted (fst f) @ '':'' @ quoted (snd f) @ '','' @ members (g # fs)"

fun json_text :: "json \<Rightarrow> string" where
  "json_text JNull = ''null''"
| "json_text (JBool b) = (if b then ''true'' else ''false'')"
| "json_text (JObject fs) = ''{'' @ members fs @ ''}''"

definition known_documents :: "json list" where
  "known_documents =
     [JNull, JBool True, JBool False,
      JObject [(''version'', ''1.0.0'')],
      JObject [(''version'', ''2.0.0'')],
      JObject [(''level'', ''3''), (''score'', ''1200'')]]"

definition example_parse :: "string \<Rightarrow> json option" where
  "example_parse s = find (\<lambda>v. json_text v = s) known_documents"

definition example_truthy :: "json \<Rightarrow> bool" where
  "example_truthy v = (case v of JNull \<Rightarrow> False | JBool b \<Rightarrow> b | JObject fs \<Rightarrow> True)"

definition example_version :: "json \<Rightarrow> jsval option" where
  "example_version v =
     (case v of
        JNull \<Rightarrow> None
      | JBool b \<Rightarrow> Some Undefined
      | JObject fs \<Rightarrow> Some (case map_of fs ''version'' of None \<Rightarrow> Undefined | Some s \<Rightarrow> Str s))"

definition example_date :: "string \<Rightarrow> int option" where
  "example_date s = (if s = ''Thu, 01 Jan 2026 00:00:00 GMT'' then Some 1767225600000 else None)"

definition example_platform :: "json platform" where
  "example_platform =
     \<lparr>origin = example_origin,
      stringify = (\<lambda>v. Some (json_text v)),
      parse = example_parse,
      truthy = example_truthy,
      version_field = example_version,
      date_parse = example_date,
      has_sync = True\<rparr>"

definition progress :: json where
  "progress = JObject [(''level'', ''3''), (''score'', ''1200'')]"

definition store_message :: "json message_event" where
  "store_message =
     \<lparr>data = Some \<lparr>mtype = Some ''STORE_GAME_DATA'', gameData = Some progress\<rparr>,
      has_port = False\<rparr>"

definition get_message :: "json message_event" where
  "get_message =
     \<lparr>data = Some \<lparr>mtype = Some ''GET_STORED_DATA'', gameData = None\<rparr>, has_port = True\<rparr>"

definition manifest_storage :: "string \<Rightarrow> storage" where
  "manifest_storage v =
     [(CACHE_NAME,
       [(''https://game.example/manifest.json'',
         \<lparr>status = 200, type = ''basic'', headers = [],
          body = json_text (JObject [(''version'', v)])\<rparr>)])]"

section \<open>Properties\<close>

subsection \<open>Strings\<close>

lemma js_startsWith_append: "js_startsWith (p @ t) p"
  by (simp add: js_startsWith_def)

lemma js_startsWith_iff: "js_startsWith s p \<longleftrightarrow> (\<exists>t. s = p @ t)"
  by (metis append_take_drop_id js_startsWith_append js_startsWith_def)

lemma js_includes_iff: "js_includes s p \<longleftrightarrow> (\<exists>a b. s = a @ p @ b)"
proof (induction s)
  case Nil
  then show ?case by auto
next
  case (Cons c s)
  show ?case
  proof
    assume "js_includes (c # s) p"
    then consider "js_startsWith (c # s) p" | "js_includes s p" by auto
    then show "\<exists>a b. c # s = a @ p @ b"
    proof cases
      case 1
      then obtain t where "c # s = p @ t" by (auto simp: js_startsWith_iff)
      then have "c # s = [] @ p @ t" by simp
      then show ?thesis by blast
    next
      case 2
      with Cons.IH obtain a b where "s = a @ p @ b" by auto
      then have "c # s = (c # a) @ p @ b" by simp
      then show ?thesis by blast
    qed
  next
    assume "\<exists>a b. c # s = a @ p @ b"
    then obtain a b where ab: "c # s = a @ p @ b" by auto
    show "js_includes (c # s) p"
    proof (cases a)
      case Nil
      with ab have "js_startsWith (c # s) p" by (auto simp: js_startsWith_iff)
      then show ?thesis by simp
    next
      case (Cons x a')
      with ab have "s = a' @ p @ b" by simp
      with Cons.IH have "js_includes s p" by auto
      then show ?thesis by simp
    qed
  qed
qed

lemma request_identity_prefix: "\<exists>t. u = request_identity u @ t"
  by (metis request_identity_def takeWhile_dropWhile_id)

lemma js_startsWith_of_identity:
  "js_startsWith (request_identity u) p \<Longrightarrow> js_startsWith u p"
  by (metis append.assoc js_startsWith_iff request_identity_prefix)



lemma origin_from_prefix: "\<exists>t. rev acc @ s = origin_from acc s @ t"
proof (induction acc s rule: origin_from.induct)
  case (1 acc)
  then show ?case by simp
next
  case (2 acc c s)
  show ?case
  proof (cases "js_startsWith (c # s) ''://''")
    case True
    then obtain t where t: "c # s = ''://'' @ t" by (auto simp: js_startsWith_iff)
    then have "drop 2 s = t" by simp
    moreover have "t = takeWhile (\<lambda>x. x \<notin> set ''/?#'') t @ dropWhile (\<lambda>x. x \<notin> set ''/?#'') t"
      by simp
    ultimately have "rev acc @ c # s
        = origin_from acc (c # s) @ dropWhile (\<lambda>x. x \<notin> set ''/?#'') t"
      using True t by (simp del: takeWhile_dropWhile_id)
    then show ?thesis by blast
  next
    case False
    then show ?thesis using 2 by (cases "c \<in> set ''/?#''") auto
  qed
qed

lemma url_origin_prefix: "js_startsWith u (url_origin u)"
  using origin_from_prefix [of "[]" u] by (auto simp: url_origin_def js_startsWith_iff)





lemma same_origin_handled: "url_origin u = org \<Longrightarrow> handled_url org u"
  using url_origin_prefix [of u] by (auto simp: handled_url_def)

lemma takeWhile_identity:
  "\<forall>x. Q x \<longrightarrow> P x \<Longrightarrow> takeWhile Q (takeWhile P t) = takeWhile Q t"
  by (induction t) auto

lemma origin_from_identity: "origin_from acc (request_identity s) = origin_from acc s"
proof (induction acc s rule: origin_from.induct)
  case (1 acc)
  then show ?case by (simp add: request_identity_def)
next
  case (2 acc c s)
  show ?case
  proof (cases "js_startsWith (c # s) ''://''")
    case True
    then obtain t where t: "c # s = ''://'' @ t" by (auto simp: js_startsWith_iff)
    then have "request_identity (c # s) = ''://'' @ takeWhile (\<lambda>c. c \<noteq> CHR ''#'') t" "drop 2 s = t"
      by (auto simp: request_identity_def)
    then show ?thesis
      using True t by (simp add: js_startsWith_def takeWhile_identity)
  next
    case False
    show ?thesis
    proof (cases "c \<in> set ''/?#''")
      case True
      with False show ?thesis
        by (cases "c = CHR ''#''") (auto simp: request_identity_def js_startsWith_def)
    next
      case no: False
      then have c: "c \<noteq> CHR ''#''" by auto
      have "\<not> js_startsWith (c # request_identity s) ''://''"
      proof
        assume "js_startsWith (c # request_identity s) ''://''"
        then have "js_startsWith (request_identity (c # s)) ''://''"
          using c by (simp add: request_identity_def)
        then have "js_startsWith (c # s) ''://''" by (rule js_startsWith_of_identity)
        with False show False by simp
      qed
      with no c False 2 show ?thesis
        by (simp add: request_identity_def)
    qed
  qed
qed

lemma url_origin_identity: "url_origin (request_identity u) = url_origin u"
  by (simp add: url_origin_def origin_from_identity)

subsection \<open>Caches and the cache storage\<close>

lemma cache_match_delete:
  "cache_match (cache_delete k c) k' = (if k' = k then None else cache_match c k')"
  by (induction c) (auto simp: cache_match_def cache_delete_def)

lemma cache_match_store:
  "cache_match (cache_store k r c) k' = (if k' = k then Some r else cache_match c k')"
proof -
  have "map_of (cache_delete k c) k' = (if k' = k then None else map_of c k')"
    using cache_match_delete [of k c k'] by (simp add: cache_match_def)
  then show ?thesis
    by (auto simp: cache_store_def cache_match_def map_add_def split: option.splits)
qed

lemma map_of_in_cache:
  "map_of (in_cache n f st) m
     = (if m = n then map_option f (map_of st n) else map_of st m)"
  by (induction st) (auto simp: in_cache_def)

lemma map_of_absent: "n \<notin> set (caches_keys st) \<Longrightarrow> map_of st n = None"
  by (simp add: caches_keys_def map_of_eq_None_iff)

lemma map_of_caches_open:
  "map_of (caches_open n st) m
     = (if m = n \<and> n \<notin> set (caches_keys st) then Some [] else map_of st m)"
proof (cases "n \<in> set (caches_keys st)")
  case True
  then show ?thesis by (simp add: caches_open_def)
next
  case False
  then have "map_of st n = None" by (rule map_of_absent)
  with False show ?thesis
    by (auto simp: caches_open_def map_add_def split: option.splits)
qed

lemma cache_of_caches_open: "cache_of (caches_open n st) m = cache_of st m"
proof (cases "n \<in> set (caches_keys st)")
  case True
  then show ?thesis by (simp add: caches_open_def)
next
  case False
  then have "map_of st n = None" by (rule map_of_absent)
  then show ?thesis
    by (simp add: cache_of_def map_of_caches_open)
qed

lemma caches_open_has: "n \<in> set (caches_keys (caches_open n st))"
  by (simp add: caches_open_def caches_keys_def)

lemma cache_of_in_cache:
  "n \<in> set (caches_keys st) \<Longrightarrow>
   cache_of (in_cache n f st) m = (if m = n then f (cache_of st n) else cache_of st m)"
proof -
  assume "n \<in> set (caches_keys st)"
  then obtain c where "map_of st n = Some c"
    by (cases "map_of st n") (auto simp: caches_keys_def map_of_eq_None_iff)
  then show ?thesis
    by (simp add: cache_of_def map_of_in_cache)
qed

lemma cache_of_in_cache_open:
  "cache_of (in_cache n f (caches_open n st)) m
     = (if m = n then f (cache_of st n) else cache_of st m)"
  by (simp add: cache_of_in_cache [OF caches_open_has] cache_of_caches_open)


text \<open>The storage after \<^verbatim>\<open>caches.open(CACHE_NAME)\<close> and a \<^verbatim>\<open>cache.put\<close>.\<close>

lemma cache_of_after_put:
  "cache_of
     (case cache_put k r (cache_of (caches_open n st) n) of
        None \<Rightarrow> caches_open n st
      | Some c \<Rightarrow> in_cache n (\<lambda>_. c) (caches_open n st)) m
   = (if m = n \<and> \<not> put_rejects r then cache_store k r (cache_of st n) else cache_of st m)"
  by (simp add: cache_put_def cache_of_in_cache_open cache_of_caches_open)

subsection \<open>Install\<close>

text \<open>
  Whatever the network does, the promise of the install listener is fulfilled; when
  \<^verbatim>\<open>addAll\<close> rejects, the storage is the one \<^verbatim>\<open>caches.open\<close> left and \<^verbatim>\<open>skipWaiting\<close> is not
  called.
\<close>

lemma install_always_fulfilled: "install_promise (install org net st) = Fulfilled"
  by (simp add: install_def Let_def split: option.splits)

lemma install_failure_keeps_storage:
  "cache_addAll org net STATIC_ASSETS (cache_of (caches_open CACHE_NAME st) CACHE_NAME) = None \<Longrightarrow>
   install_storage (install org net st) = caches_open CACHE_NAME st
   \<and> \<not> skip_waiting_called (install org net st)"
  by (simp add: install_def Let_def)

text \<open>
  Claim C2 asks that an install with a failing asset is reported as failed, that the
  cache holds none of the assets and that readiness to activate is not signalled. Run
  on an empty storage with a network that fails for \<^verbatim>\<open>/manifest.json\<close> only, the listener
  leaves the cache \<^verbatim>\<open>CACHE_NAME\<close> empty and does not call \<^verbatim>\<open>skipWaiting\<close>, but its promise is
  fulfilled: the final \<^verbatim>\<open>catch\<close> has taken the rejection, and the platform sees a
  successful install.
\<close>

theorem install_failure_is_swallowed:
  "install example_origin manifest_missing []
     = \<lparr>install_promise = Fulfilled, install_storage = [(CACHE_NAME, [])],
        skip_waiting_called = False, cache_failed_logged = True\<rparr>"
  by (simp add: install_def caches_open_def caches_keys_def cache_addAll_def STATIC_ASSETS_def
      manifest_missing_def url_request_def resolve_url_def js_startsWith_def example_origin_def
      page_response_def ok_def put_rejects_def vary_star_def request_identity_def cache_of_def)

subsection \<open>Activate\<close>

lemma caches_delete_fold:
  "foldl (\<lambda>s cacheName. if cacheName \<noteq> keep then caches_delete cacheName s else s) st names
     = filter (\<lambda>e. fst e = keep \<or> fst e \<notin> set names) st"
proof (induction names arbitrary: st)
  case Nil
  then show ?case by simp
next
  case (Cons n names)
  show ?case
    by (cases "n = keep") (auto simp: Cons.IH caches_delete_def intro: filter_cong)
qed

lemma activate_storage: "fst (activate st) = filter (\<lambda>e. fst e = CACHE_NAME) st"
  by (auto simp: activate_def caches_delete_fold caches_keys_def intro: filter_cong)

lemma map_of_filter_fst:
  "map_of (filter (\<lambda>e. fst e = n) st) m = (if m = n then map_of st n else None)"
  by (induction st) auto

text \<open>
  After activation the cache \<^verbatim>\<open>CACHE_NAME\<close>, when there is one, is the first of the storage:
  no cache was created before it.
\<close>

lemma takeWhile_filter_fst:
  "takeWhile (\<lambda>e. fst e \<noteq> n) (filter (\<lambda>e. fst e = n) st) = []"
  by (induction st) auto

lemma activate_current_first:
  "takeWhile (\<lambda>e. fst e \<noteq> CACHE_NAME) (fst (activate st)) = []"
  by (simp add: activate_storage takeWhile_filter_fst)

text \<open>
  Claim C3. After activation no cache of another name is left: every name that differs
  from \<^verbatim>\<open>CACHE_NAME\<close> is gone from \<^verbatim>\<open>caches.keys()\<close> and has no cache any more, the cache
  \<^verbatim>\<open>CACHE_NAME\<close> is the one it was, no other name is listed, and the clients are claimed.
\<close>

theorem activate_deletes_other_versions:
  "cacheName \<noteq> CACHE_NAME \<Longrightarrow>
     cacheName \<notin> set (caches_keys (fst (activate st)))
     \<and> map_of (fst (activate st)) cacheName = None
     \<and> map_of (fst (activate st)) CACHE_NAME = map_of st CACHE_NAME
     \<and> set (caches_keys (fst (activate st))) \<subseteq> {CACHE_NAME}
     \<and> snd (activate st)"
  by (auto simp: activate_storage map_of_filter_fst caches_keys_def) (simp add: activate_def)

text \<open>
  Claim C3 on a storage with the caches of versions 0.9.0 and 1.0.0: the older one is
  deleted, the current one stays.
\<close>

theorem activate_deletes_other_versions_witness:
  "''blood-eagle-v0.9.0'' \<noteq> CACHE_NAME
   \<and> ''blood-eagle-v0.9.0'' \<notin> set (caches_keys (fst (activate old_storage)))
   \<and> map_of (fst (activate old_storage)) ''blood-eagle-v0.9.0'' = None
   \<and> map_of (fst (activate old_storage)) CACHE_NAME
       = Some [(''https://game.example/'', page_response)]"
proof -
  have h: "''blood-eagle-v0.9.0'' \<noteq> CACHE_NAME"
    by (simp add: CACHE_NAME_def)
  show ?thesis
    using h activate_deletes_other_versions [OF h, of old_storage]
    by (simp add: old_storage_def CACHE_NAME_def)
qed

subsection \<open>The storages of the worker\<close>


















lemma getStoredGameData_storage: "fst (getStoredGameData P st) = caches_open CACHE_NAME st"
  by (simp add: getStoredGameData_def Let_def split: option.splits)








subsection \<open>Fetch\<close>




lemma listed_origin_handled:
  "url_origin u \<in> {org, ''https://fonts.googleapis.com'', ''https://cdnjs.cloudflare.com''} \<Longrightarrow>
   handled_url org u"
proof -
  assume "url_origin u \<in> {org, ''https://fonts.googleapis.com'', ''https://cdnjs.cloudflare.com''}"
  then consider "url_origin u = org" | "url_origin u = ''https://fonts.googleapis.com''"
    | "url_origin u = ''https://cdnjs.cloudflare.com''"
    by auto
  then show ?thesis
  proof cases
    case 1
    then show ?thesis by (rule same_origin_handled)
  next
    case 2
    with url_origin_prefix [of u] obtain t where "u = ''https://'' @ ''fonts.googleapis.com'' @ t"
      by (auto simp: js_startsWith_iff)
    then have "js_includes u ''fonts.googleapis.com''"
      unfolding js_includes_iff by blast
    then show ?thesis by (simp add: handled_url_def)
  next
    case 3
    with url_origin_prefix [of u] obtain t where "u = ''https://'' @ ''cdnjs.cloudflare.com'' @ t"
      by (auto simp: js_startsWith_iff)
    then have "js_includes u ''cdnjs.cloudflare.com''"
      unfolding js_includes_iff by blast
    then show ?thesis by (simp add: handled_url_def)
  qed
qed

text \<open>
  Claim C8, as stated, fails for a response that \<^verbatim>\<open>cache.put\<close> refuses. A same-origin
  \<^verbatim>\<open>GET\<close> that misses the cache is answered by the network with status \<^verbatim>\<open>200\<close>, type
  \<^verbatim>\<open>basic\<close> and the header \<^verbatim>\<open>Vary: *\<close>: the response is returned and the storage stays as
  it was, with no entry for the request.
\<close>

theorem varying_response_is_not_stored:
  "method scores_request = ''GET''
   \<and> url_origin (url scores_request) = example_origin
   \<and> caches_match home_storage (url scores_request) = None
   \<and> status varying_response = 200
   \<and> type varying_response = ''basic''
   \<and> answer (fetch_handler example_origin (\<lambda>q. Some varying_response) home_storage scores_request)
       = RespondWith (Some varying_response)
   \<and> fetch_storage
        (fetch_handler example_origin (\<lambda>q. Some varying_response) home_storage scores_request)
       = home_storage
   \<and> cache_match (cache_of home_storage CACHE_NAME) (request_identity (url scores_request)) = None"
  by (simp add: scores_request_def url_origin_def js_startsWith_def example_origin_def
      caches_match_def request_identity_def home_storage_def cache_match_def
      varying_response_def fetch_handler_def cache_put_def put_rejects_def vary_star_def
      field_values_def js_split_def trim_def caches_open_def caches_keys_def cache_of_def)

text \<open>
  Claim C8, amended. A \<^verbatim>\<open>GET\<close> request whose origin is the worker's or one of the two
  listed ones, that misses the storage and is answered by the network with status
  \<^verbatim>\<open>200\<close>, type \<^verbatim>\<open>basic\<close> and no \<^verbatim>\<open>Vary: *\<close>, gets that response, and the cache
  \<^verbatim>\<open>CACHE_NAME\<close> then holds it under the request's identity. Conversely, on a platform
  that gives the type \<^verbatim>\<open>basic\<close> to same-origin requests only, an entry that a cache holds
  after the listener ran and did not hold before is in the cache \<^verbatim>\<open>CACHE_NAME\<close>, under the
  identity of the request, which is a \<^verbatim>\<open>GET\<close> of the worker's own origin, and it is the
  network's response, with status \<^verbatim>\<open>200\<close>, type \<^verbatim>\<open>basic\<close> and no \<^verbatim>\<open>Vary: *\<close>.
\<close>

theorem successful_fetch_is_stored:
  "(method req = ''GET''
      \<and> url_origin (url req) \<in> {org, ''https://fonts.googleapis.com'', ''https://cdnjs.cloudflare.com''}
      \<and> caches_match st (url req) = None
      \<and> net req = Some fetchResponse \<and> status fetchResponse = 200
      \<and> type fetchResponse = ''basic'' \<and> \<not> vary_star fetchResponse
    \<longrightarrow> answer (fetch_handler org net st req) = RespondWith (Some fetchResponse)
        \<and> cache_match (cache_of (fetch_storage (fetch_handler org net st req)) CACHE_NAME)
             (request_identity (url req)) = Some fetchResponse
        \<and> fetched (fetch_handler org net st req) = [req])
   \<and> (cache_match (cache_of (fetch_storage (fetch_handler org net st req)) n) k = Some r
        \<and> cache_match (cache_of st n) k \<noteq> Some r
        \<and> (\<forall>f. net req = Some f \<longrightarrow> type f = ''basic'' \<longrightarrow> url_origin (url req) = org)
    \<longrightarrow> n = CACHE_NAME \<and> k = request_identity (url req) \<and> net req = Some r
        \<and> status r = 200 \<and> type r = ''basic'' \<and> \<not> vary_star r
        \<and> method req = ''GET'' \<and> url_origin k = org)"
proof (rule conjI; rule impI)
  assume h: "method req = ''GET''
      \<and> url_origin (url req) \<in> {org, ''https://fonts.googleapis.com'', ''https://cdnjs.cloudflare.com''}
      \<and> caches_match st (url req) = None
      \<and> net req = Some fetchResponse \<and> status fetchResponse = 200
      \<and> type fetchResponse = ''basic'' \<and> \<not> vary_star fetchResponse"
  then have "handled_url org (url req)"
    by (simp add: listed_origin_handled)
  moreover from h have "\<not> put_rejects fetchResponse"
    by (simp add: put_rejects_def)
  ultimately have out: "fetch_handler org net st req
       = \<lparr>answer = RespondWith (Some fetchResponse),
          fetch_storage =
            in_cache CACHE_NAME
              (\<lambda>_. cache_store (request_identity (url req)) fetchResponse
                     (cache_of (caches_open CACHE_NAME st) CACHE_NAME))
              (caches_open CACHE_NAME st),
          fetched = [req]\<rparr>"
    using h by (auto simp: fetch_handler_def handled_url_def cache_put_def Let_def)
  show "answer (fetch_handler org net st req) = RespondWith (Some fetchResponse)
        \<and> cache_match (cache_of (fetch_storage (fetch_handler org net st req)) CACHE_NAME)
             (request_identity (url req)) = Some fetchResponse
        \<and> fetched (fetch_handler org net st req) = [req]"
    by (simp add: out cache_of_in_cache_open cache_match_store)
next
  assume new: "cache_match (cache_of (fetch_storage (fetch_handler org net st req)) n) k = Some r
        \<and> cache_match (cache_of st n) k \<noteq> Some r
        \<and> (\<forall>f. net req = Some f \<longrightarrow> type f = ''basic'' \<longrightarrow> url_origin (url req) = org)"
  then have changed: "cache_of (fetch_storage (fetch_handler org net st req)) n \<noteq> cache_of st n"
    by auto
  then have "fetch_storage (fetch_handler org net st req) \<noteq> st"
    by auto
  then obtain f where get: "method req = ''GET''"
    and f: "net req = Some f" "status f = 200" "type f = ''basic''"
    and st': "fetch_storage (fetch_handler org net st req)
       = (case cache_put (request_identity (url req)) f
                 (cache_of (caches_open CACHE_NAME st) CACHE_NAME) of
            None \<Rightarrow> caches_open CACHE_NAME st
          | Some c \<Rightarrow> in_cache CACHE_NAME (\<lambda>_. c) (caches_open CACHE_NAME st))"
    by (auto simp: fetch_handler_def Let_def split: if_splits option.splits)
  from changed have accepted: "\<not> put_rejects f"
    by (auto simp: st' cache_of_after_put split: if_splits)
  with new have "n = CACHE_NAME \<and> k = request_identity (url req) \<and> r = f"
    by (auto simp: st' cache_of_after_put cache_match_store split: if_splits)
  moreover from new f have "url_origin (url req) = org" by simp
  ultimately show "n = CACHE_NAME \<and> k = request_identity (url req) \<and> net req = Some r
        \<and> status r = 200 \<and> type r = ''basic'' \<and> \<not> vary_star r
        \<and> method req = ''GET'' \<and> url_origin k = org"
    using f get accepted by (simp add: put_rejects_def url_origin_identity)
qed

text \<open>
  Claim C8, amended, on the request for an image of the game that the cache does not
  hold yet: the image is returned and stored, and it is the only new entry.
\<close>

theorem successful_fetch_is_stored_witness:
  "answer (fetch_handler example_origin online home_storage level_request)
     = RespondWith (Some image_response)
   \<and> cache_match
        (cache_of (fetch_storage (fetch_handler example_origin online home_storage level_request))
           CACHE_NAME)
        (request_identity (url level_request)) = Some image_response
   \<and> cache_match (cache_of home_storage CACHE_NAME) (request_identity (url level_request)) = None
   \<and> status image_response = 200
   \<and> url_origin (request_identity (url level_request)) = example_origin"
proof -
  have o: "url_origin (url level_request) = example_origin"
    by (simp add: level_request_def url_origin_def js_startsWith_def example_origin_def)
  have p: "method level_request = ''GET''
      \<and> url_origin (url level_request)
          \<in> {example_origin, ''https://fonts.googleapis.com'', ''https://cdnjs.cloudflare.com''}
      \<and> caches_match home_storage (url level_request) = None
      \<and> online level_request = Some image_response \<and> status image_response = 200
      \<and> type image_response = ''basic'' \<and> \<not> vary_star image_response"
    by (simp add: o)
       (simp add: level_request_def caches_match_def request_identity_def home_storage_def
        cache_match_def online_def image_response_def vary_star_def)
  have q: "cache_match (cache_of home_storage CACHE_NAME) (request_identity (url level_request))
             = None"
    by (simp add: home_storage_def cache_of_def cache_match_def level_request_def
        request_identity_def)
  have w: "\<forall>f. online level_request = Some f \<longrightarrow> type f = ''basic'' \<longrightarrow>
             url_origin (url level_request) = example_origin"
    by (simp add: o)
  from successful_fetch_is_stored [where req = level_request and org = example_origin
      and st = home_storage and net = online and fetchResponse = image_response
      and n = CACHE_NAME and k = "request_identity (url level_request)" and r = image_response]
    p q w
  show ?thesis by simp
qed

text \<open>
  Claim C6, as stated, fails when the cache does not hold the offline document. After
  an install that could not fetch its assets the cache \<^verbatim>\<open>CACHE_NAME\<close> is empty; a navigation
  to the start page while the network is down is then answered with \<^verbatim>\<open>undefined\<close>, and the
  page gets a network error.
\<close>

theorem offline_navigation_without_fallback:
  "method home_navigation = ''GET''
   \<and> mode home_navigation = ''navigate''
   \<and> handled_url example_origin (url home_navigation)
   \<and> install_storage (install example_origin offline []) = [(CACHE_NAME, [])]
   \<and> caches_match [(CACHE_NAME, [])] (url home_navigation) = None
   \<and> offline home_navigation = None
   \<and> answer (fetch_handler example_origin offline [(CACHE_NAME, [])] home_navigation)
       = RespondWith None
   \<and> client_sees offline home_navigation
        (answer (fetch_handler example_origin offline [(CACHE_NAME, [])] home_navigation))
       = NetworkError"
  by (simp add: home_navigation_def handled_url_def example_origin_def js_startsWith_def
      install_def caches_open_def caches_keys_def cache_addAll_def STATIC_ASSETS_def
      offline_def cache_match_def caches_match_def request_identity_def fetch_handler_def
      client_sees_def resolve_url_def OFFLINE_URL_def cache_of_def)

text \<open>
  Claim C6, amended. For a \<^verbatim>\<open>GET\<close> request for a handled URL that misses the storage and
  whose fetch rejects: a navigation is answered with what the storage holds for
  \<^verbatim>\<open>OFFLINE_URL\<close>, so the page gets the offline document when it is cached and a network
  error when it is not; any other request is answered with \<^verbatim>\<open>undefined\<close>, so the caller gets
  a network error. The storage is not changed and the request was fetched once.
\<close>

theorem failed_fetch_falls_back:
  assumes "method req = ''GET''"
    and "handled_url org (url req)"
    and "caches_match st (url req) = None"
    and "net req = None"
  shows "answer (fetch_handler org net st req)
           = (if mode req = ''navigate''
              then RespondWith (caches_match st (resolve_url org OFFLINE_URL))
              else RespondWith None)
         \<and> client_sees net req (answer (fetch_handler org net st req))
           = (if mode req = ''navigate''
              then (case caches_match st (resolve_url org OFFLINE_URL) of
                      Some document \<Rightarrow> Got document
                    | None \<Rightarrow> NetworkError)
              else NetworkError)
         \<and> fetch_storage (fetch_handler org net st req) = st
         \<and> fetched (fetch_handler org net st req) = [req]"
  using assms
  by (auto simp: fetch_handler_def handled_url_def client_sees_def split: option.splits)

text \<open>
  Claim C6, amended, on a navigation to the game page while the network is down and the
  cache holds \<^verbatim>\<open>/index_new.html\<close>: the page gets that document.
\<close>

theorem failed_fetch_falls_back_witness:
  "answer (fetch_handler example_origin offline offline_ready_storage game_navigation)
     = RespondWith (Some page_response)
   \<and> client_sees offline game_navigation
        (answer (fetch_handler example_origin offline offline_ready_storage game_navigation))
     = Got page_response"
proof -
  have 1: "method game_navigation = ''GET''"
    by (simp add: game_navigation_def)
  have 2: "handled_url example_origin (url game_navigation)"
    by (simp add: handled_url_def game_navigation_def example_origin_def js_startsWith_def)
  have 3: "caches_match offline_ready_storage (url game_navigation) = None"
    by (simp add: offline_ready_storage_def game_navigation_def cache_match_def
        caches_match_def request_identity_def)
  have 4: "offline game_navigation = None"
    by (simp add: offline_def)
  have 5: "mode game_navigation = ''navigate''"
    by (simp add: game_navigation_def)
  have 6: "caches_match offline_ready_storage (resolve_url example_origin OFFLINE_URL)
             = Some page_response"
    by (simp add: offline_ready_storage_def resolve_url_def example_origin_def OFFLINE_URL_def
        js_startsWith_def cache_match_def caches_match_def request_identity_def)
  from failed_fetch_falls_back [where net = offline and req = game_navigation, OF 1 2 3 4] 5 6
  show ?thesis
    by (simp add: client_sees_def)
qed

subsection \<open>Stored game data and messages\<close>

lemma getStoredGameData_value:
  "snd (getStoredGameData P st)
     = (case cache_match (cache_of st CACHE_NAME) (resolve_url (origin P) ''/game-data'') of
          None \<Rightarrow> None
        | Some r \<Rightarrow> parse P (body r))"
  by (simp add: getStoredGameData_def Let_def cache_of_caches_open split: option.splits)

text \<open>\<^verbatim>\<open>cache.put\<close> accepts the response that \<^verbatim>\<open>storeGameData\<close> builds.\<close>

lemma put_accepts_game_data: "\<not> put_rejects (game_data_response text)"
  by (simp add: put_rejects_def vary_star_def game_data_response_def)

lemma storeGameData_entry:
  "stringify P v = Some text \<Longrightarrow>
   cache_match (cache_of (storeGameData P (Some v) st) CACHE_NAME) (resolve_url (origin P) ''/game-data'')
     = Some (game_data_response text)"
  by (simp add: storeGameData_def Let_def cache_of_after_put cache_match_store
      put_accepts_game_data)

text \<open>
  Claim C9. Let \<open>v\<close> be a value that the platform serialises to a text which it parses
  back to \<open>v\<close>. After the message \<^verbatim>\<open>STORE_GAME_DATA\<close> with \<open>v\<close> has been handled, the
  message \<^verbatim>\<open>GET_STORED_DATA\<close> (with a reply port) is answered with \<open>v\<close>. The messages are
  handled one after the other: the write of the first has landed when the second is
  read.
\<close>

theorem store_then_get_round_trip:
  assumes "stringify P v = Some text"
    and "parse P text = Some v"
  shows "reply
           (message_handler P
              \<lparr>data = Some \<lparr>mtype = Some ''GET_STORED_DATA'', gameData = g\<rparr>, has_port = True\<rparr>
              (message_storage
                 (message_handler P
                    \<lparr>data = Some \<lparr>mtype = Some ''STORE_GAME_DATA'', gameData = Some v\<rparr>,
                     has_port = p\<rparr>
                    st)))
         = Some (DataReply (Some v))"
proof -
  have stored: "message_storage
        (message_handler P
           \<lparr>data = Some \<lparr>mtype = Some ''STORE_GAME_DATA'', gameData = Some v\<rparr>, has_port = p\<rparr> st)
      = storeGameData P (Some v) st"
    by (simp add: message_handler_def)
  have "snd (getStoredGameData P (storeGameData P (Some v) st)) = Some v"
    using assms by (simp add: getStoredGameData_value storeGameData_entry game_data_response_def)
  then show ?thesis
    by (simp add: stored message_handler_def Let_def case_prod_beta)
qed

text \<open>Claim C9 on the example platform, storing a record with a level and a score.\<close>

theorem store_then_get_round_trip_witness:
  "reply (message_handler example_platform get_message
      (message_storage (message_handler example_platform store_message [])))
     = Some (DataReply (Some progress))"
proof -
  have 1: "stringify example_platform progress = Some (json_text progress)"
    by (simp add: example_platform_def)
  have 2: "parse example_platform (json_text progress) = Some progress"
    by (simp add: example_platform_def example_parse_def known_documents_def progress_def
        quoted_def)
  from store_then_get_round_trip [OF 1 2, of None False "[]"] show ?thesis
    by (simp add: get_message_def store_message_def)
qed

subsection \<open>Background sync\<close>

lemma currentVersion_value: "currentVersion = Str ''1.0.0''"
  by (simp add: currentVersion_def js_split_def CACHE_NAME_def js_startsWith_def)

text \<open>
  Claim C7, as stated, fails: a cycle makes no request for the manifest. On the storage
  that a failed install leaves, where the cache holds no copy of \<^verbatim>\<open>/manifest.json\<close>, the
  cycle posts nothing, asks the network for nothing and shows no notification, whatever
  version is deployed.
\<close>

theorem cycle_without_cached_manifest:
  "install_storage (install example_origin offline []) = [(CACHE_NAME, [])]
   \<and> cache_match (cache_of [(CACHE_NAME, [])] CACHE_NAME)
        (resolve_url (origin example_platform) ''/manifest.json'') = None
   \<and> notifications (doBackgroundSync example_platform [(CACHE_NAME, [])]) = []
   \<and> posts (doBackgroundSync example_platform [(CACHE_NAME, [])]) = []
   \<and> notifications (sync_handler example_platform ''background-sync'' [(CACHE_NAME, [])]) = []"
  by (simp add: install_def caches_open_def caches_keys_def cache_addAll_def STATIC_ASSETS_def
      offline_def cache_of_def cache_match_def doBackgroundSync_def sync_handler_def
      getStoredGameData_def checkForUpdates_def)

text \<open>
  Claim C7, amended. A cycle of \<^verbatim>\<open>doBackgroundSync\<close> reads the copy of the manifest that
  the cache \<^verbatim>\<open>CACHE_NAME\<close> holds. When the copy is there and its version can be read, the
  cycle shows exactly one update notification if the version is not the string \<^verbatim>\<open>1.0.0\<close>
  (the part of \<^verbatim>\<open>CACHE_NAME\<close> after \<^verbatim>\<open>-v\<close>) and none if it is; without a readable copy it
  shows none. The \<^verbatim>\<open>sync\<close> listener shows the same, the cycle never calls \<^verbatim>\<open>skipWaiting\<close>,
  and its only requests to the network are posts to \<^verbatim>\<open>/api/sync-progress\<close>.
\<close>

theorem one_update_notification_per_cycle:
  "notifications (doBackgroundSync P st)
     = (case cache_match (cache_of st CACHE_NAME) (resolve_url (origin P) ''/manifest.json'') of
          None \<Rightarrow> []
        | Some manifest \<Rightarrow>
            (case parse P (body manifest) of
               None \<Rightarrow> []
             | Some manifestData \<Rightarrow>
                 (case version_field P manifestData of
                    None \<Rightarrow> []
                  | Some version \<Rightarrow>
                      if version \<noteq> Str ''1.0.0'' then [update_notification] else [])))
   \<and> notifications (sync_handler P ''background-sync'' st)
     = notifications (doBackgroundSync P st)
   \<and> \<not> sync_skip_waiting (doBackgroundSync P st)
   \<and> (\<forall>p \<in> set (posts (doBackgroundSync P st)).
        fst p = resolve_url (origin P) ''/api/sync-progress'')"
proof -
  have shown: "snd (checkForUpdates P (caches_open CACHE_NAME st))
      = (case cache_match (cache_of st CACHE_NAME) (resolve_url (origin P) ''/manifest.json'') of
          None \<Rightarrow> []
        | Some manifest \<Rightarrow>
            (case parse P (body manifest) of
               None \<Rightarrow> []
             | Some manifestData \<Rightarrow>
                 (case version_field P manifestData of
                    None \<Rightarrow> []
                  | Some version \<Rightarrow>
                      if version \<noteq> Str ''1.0.0'' then [update_notification] else [])))"
    by (simp add: checkForUpdates_def Let_def cache_of_caches_open currentVersion_value
        split: option.splits)
  have sent: "\<forall>p \<in> set (posts (doBackgroundSync P st)).
      fst p = resolve_url (origin P) ''/api/sync-progress''"
  proof
    fix p
    assume "p \<in> set (posts (doBackgroundSync P st))"
    then obtain v where "p \<in> set (syncGameProgress P v)"
      by (auto simp: doBackgroundSync_def Let_def case_prod_beta split: option.splits if_splits)
    moreover have "syncGameProgress P v = []
        \<or> (\<exists>text. syncGameProgress P v = [(resolve_url (origin P) ''/api/sync-progress'', text)])"
      by (simp add: syncGameProgress_def split: option.splits)
    ultimately show "fst p = resolve_url (origin P) ''/api/sync-progress''"
      by auto
  qed
  have cycle: "notifications (doBackgroundSync P st)
      = snd (checkForUpdates P (caches_open CACHE_NAME st))"
    by (simp add: doBackgroundSync_def Let_def case_prod_beta getStoredGameData_storage)
  have listener: "notifications (sync_handler P ''background-sync'' st)
      = notifications (doBackgroundSync P st)"
    by (simp add: sync_handler_def)
  have no_skip: "\<not> sync_skip_waiting (doBackgroundSync P st)"
    by (simp add: doBackgroundSync_def Let_def case_prod_beta)
  from cycle shown listener no_skip sent show ?thesis
    by (intro conjI) simp_all
qed

text \<open>
  Claim C7, amended, on a cached manifest of version 2.0.0 (one notification), on one of
  version 1.0.0 (none) and on a cache without a manifest (none).
\<close>

theorem one_update_notification_per_cycle_witness:
  "notifications (doBackgroundSync example_platform (manifest_storage ''2.0.0''))
     = [update_notification]
   \<and> notifications (doBackgroundSync example_platform (manifest_storage ''1.0.0'')) = []
   \<and> notifications (doBackgroundSync example_platform []) = []"
proof -
  have m: "\<And>v. cache_match (cache_of (manifest_storage v) CACHE_NAME)
            (resolve_url (origin example_platform) ''/manifest.json'')
          = Some \<lparr>status = 200, type = ''basic'', headers = [],
                  body = json_text (JObject [(''version'', v)])\<rparr>"
    by (simp add: manifest_storage_def cache_of_def cache_match_def example_platform_def
        resolve_url_def js_startsWith_def example_origin_def)
  have e: "cache_match (cache_of [] CACHE_NAME)
            (resolve_url (origin example_platform) ''/manifest.json'') = None"
    by (simp add: cache_of_def cache_match_def)
  have p2: "parse example_platform
              (body \<lparr>status = 200, type = ''basic'', headers = [],
                     body = json_text (JObject [(''version'', ''2.0.0'')])\<rparr>)
            = Some (JObject [(''version'', ''2.0.0'')])"
    by (simp add: example_platform_def example_parse_def known_documents_def quoted_def)
  have p1: "parse example_platform
              (body \<lparr>status = 200, type = ''basic'', headers = [],
                     body = json_text (JObject [(''version'', ''1.0.0'')])\<rparr>)
            = Some (JObject [(''version'', ''1.0.0'')])"
    by (simp add: example_platform_def example_parse_def known_documents_def quoted_def)
  have f: "\<And>v. version_field example_platform (JObject [(''version'', v)]) = Some (Str v)"
    by (simp add: example_platform_def example_version_def)
  from one_update_notification_per_cycle [of example_platform "manifest_storage ''2.0.0''"]
    one_update_notification_per_cycle [of example_platform "manifest_storage ''1.0.0''"]
    one_update_notification_per_cycle [of example_platform "[]"]
  show ?thesis
    by (simp add: m e) (simp add: p1 [simplified] p2 [simplified] f)
qed

subsection \<open>Cleanup\<close>

text \<open>
  The identities of the cache \<^verbatim>\<open>CACHE_NAME\<close> are distinct in the empty storage, and every
  operation of the worker keeps them distinct.
\<close>

lemma distinct_cache_delete:
  "distinct (cache_keys c) \<Longrightarrow> distinct (cache_keys (cache_delete k c))"
  by (simp add: cache_keys_def cache_delete_def distinct_map_filter)

lemma distinct_cache_store:
  "distinct (cache_keys c) \<Longrightarrow> distinct (cache_keys (cache_store k r c))"
  by (auto simp: cache_keys_def cache_store_def cache_delete_def distinct_map_filter)

lemma distinct_fold_put:
  "distinct (cache_keys c) \<Longrightarrow>
   distinct (cache_keys (fold (\<lambda>e. cache_store (fst e) (snd e)) rs c))"
  by (induction rs arbitrary: c) (simp_all add: distinct_cache_store)

lemma distinct_cleanup_loop:
  "distinct (cache_keys c) \<Longrightarrow> distinct (cache_keys (cleanup_loop P now ks c))"
  by (induction ks arbitrary: c) (auto simp: distinct_cache_delete split: option.splits)

lemma distinct_after_install:
  "distinct (cache_keys (cache_of st CACHE_NAME)) \<Longrightarrow>
   distinct (cache_keys (cache_of (install_storage (install org net st)) CACHE_NAME))"
  by (auto simp: install_def Let_def cache_addAll_def cache_of_in_cache_open cache_of_caches_open
      distinct_fold_put split: option.splits)

lemma distinct_after_activate:
  "distinct (cache_keys (cache_of st CACHE_NAME)) \<Longrightarrow>
   distinct (cache_keys (cache_of (fst (activate st)) CACHE_NAME))"
  by (simp add: cache_of_def activate_storage map_of_filter_fst)

lemma distinct_after_fetch:
  "distinct (cache_keys (cache_of st CACHE_NAME)) \<Longrightarrow>
   distinct (cache_keys (cache_of (fetch_storage (fetch_handler org net st req)) CACHE_NAME))"
  by (auto simp: fetch_handler_def Let_def cache_put_def cache_of_in_cache_open
      cache_of_caches_open distinct_cache_store split: option.splits)

lemma distinct_after_storeGameData:
  "distinct (cache_keys (cache_of st CACHE_NAME)) \<Longrightarrow>
   distinct (cache_keys (cache_of (storeGameData P g st) CACHE_NAME))"
  by (auto simp: storeGameData_def Let_def cache_put_def cache_of_in_cache_open
      cache_of_caches_open distinct_cache_store split: option.splits)

lemma distinct_after_cleanup:
  "distinct (cache_keys (cache_of st CACHE_NAME)) \<Longrightarrow>
   distinct (cache_keys (cache_of (cleanupOldData P now st) CACHE_NAME))"
  by (simp add: cleanupOldData_def Let_def cache_of_in_cache_open cache_of_caches_open
      distinct_cleanup_loop)

lemma distinct_empty_storage: "distinct (cache_keys (cache_of [] CACHE_NAME))"
  by (simp add: cache_of_def cache_keys_def)

text \<open>
  On a cache whose keys are distinct (as \<^verbatim>\<open>cache.put\<close> keeps them) the loop never meets a
  key without an entry, and it removes exactly the expired entries.
\<close>

lemma map_of_distinct_entry:
  "distinct (map fst c) \<Longrightarrow> map_of c k = Some r \<Longrightarrow> (k, r') \<in> set c \<Longrightarrow> r' = r"
  by (metis map_of_is_SomeI option.inject)

lemma cleanup_loop_filter:
  "distinct (map fst c) \<Longrightarrow> distinct ks \<Longrightarrow> set ks \<subseteq> fst ` set c \<Longrightarrow>
   cleanup_loop P now ks c = filter (\<lambda>e. \<not> (fst e \<in> set ks \<and> expired P now (snd e))) c"
proof (induction ks arbitrary: c)
  case Nil
  then show ?case by simp
next
  case (Cons k ks)
  from Cons.prems(3) obtain r where r: "map_of c k = Some r"
    by (cases "map_of c k") (auto simp: map_of_eq_None_iff)
  have same: "\<And>e. e \<in> set c \<Longrightarrow> fst e = k \<Longrightarrow> snd e = r"
    using map_of_distinct_entry [OF Cons.prems(1) r] by (metis prod.collapse)
  show ?case
  proof (cases "expired P now r")
    case True
    have d: "distinct (map fst (cache_delete k c))"
      using Cons.prems(1) by (simp add: cache_delete_def distinct_map_filter)
    have s: "set ks \<subseteq> fst ` set (cache_delete k c)"
    proof
      fix x
      assume x: "x \<in> set ks"
      with Cons.prems(3) obtain e where "e \<in> set c" "fst e = x" by auto
      moreover from x Cons.prems(2) have "x \<noteq> k" by auto
      ultimately show "x \<in> fst ` set (cache_delete k c)"
        by (force simp: cache_delete_def)
    qed
    have "cleanup_loop P now (k # ks) c = cleanup_loop P now ks (cache_delete k c)"
      using r True by (simp add: cache_match_def)
    also have "\<dots> = filter (\<lambda>e. \<not> (fst e \<in> set ks \<and> expired P now (snd e))) (cache_delete k c)"
      using Cons.IH [OF d _ s] Cons.prems(2) by simp
    also have "\<dots> = filter (\<lambda>e. \<not> (fst e \<in> set (k # ks) \<and> expired P now (snd e))) c"
      using same True by (auto simp: cache_delete_def intro!: filter_cong)
    finally show ?thesis .
  next
    case False
    have "cleanup_loop P now (k # ks) c = cleanup_loop P now ks c"
      using r False by (simp add: cache_match_def)
    also have "\<dots> = filter (\<lambda>e. \<not> (fst e \<in> set ks \<and> expired P now (snd e))) c"
      using Cons.IH [OF Cons.prems(1)] Cons.prems(2,3) by simp
    also have "\<dots> = filter (\<lambda>e. \<not> (fst e \<in> set (k # ks) \<and> expired P now (snd e))) c"
      using same False by (auto intro!: filter_cong)
    finally show ?thesis .
  qed
qed

lemma cleanup_loop_all:
  "distinct (cache_keys c) \<Longrightarrow>
   cleanup_loop P now (cache_keys c) c = filter (\<lambda>e. \<not> expired P now (snd e)) c"
  by (simp add: cache_keys_def cleanup_loop_filter cong: filter_cong)

lemma map_of_filter_snd:
  "distinct (map fst c) \<Longrightarrow>
   map_of (filter (\<lambda>e. Q (snd e)) c) k
     = (case map_of c k of None \<Rightarrow> None | Some r \<Rightarrow> if Q r then Some r else None)"
proof (induction c)
  case Nil
  then show ?case by simp
next
  case (Cons e c)
  then show ?case
    by (cases e) (auto simp: map_of_eq_None_iff image_iff split: option.splits)
qed

lemma cleanup_match:
  "distinct (cache_keys (cache_of st CACHE_NAME)) \<Longrightarrow>
   cache_match (cache_of (cleanupOldData P now st) CACHE_NAME) k
     = (case cache_match (cache_of st CACHE_NAME) k of
          None \<Rightarrow> None
        | Some r \<Rightarrow> if expired P now r then None else Some r)"
proof -
  assume d: "distinct (cache_keys (cache_of st CACHE_NAME))"
  have "cache_of (cleanupOldData P now st) CACHE_NAME
          = filter (\<lambda>e. \<not> expired P now (snd e)) (cache_of st CACHE_NAME)"
    by (simp add: cleanupOldData_def Let_def cache_of_in_cache_open cache_of_caches_open
        cleanup_loop_all [OF d])
  then show ?thesis
    using d map_of_filter_snd [of "cache_of st CACHE_NAME" "\<lambda>r. \<not> expired P now r" k]
    by (auto simp: cache_match_def cache_keys_def split: option.splits)
qed

text \<open>
  Claim C4, as stated, fails: the sweep makes no exception for \<^verbatim>\<open>/game-data\<close>. The data
  stored by a \<^verbatim>\<open>STORE_GAME_DATA\<close> message is read back by \<^verbatim>\<open>GET_STORED_DATA\<close>; after a sweep
  on 1 January 2026 the same message is answered with \<^verbatim>\<open>null\<close>.
\<close>

theorem sweep_deletes_progress_record:
  "reply (message_handler example_platform get_message
       (message_storage (message_handler example_platform store_message [])))
     = Some (DataReply (Some progress))
   \<and> reply (message_handler example_platform get_message
       (cleanupOldData example_platform 1767225600000
          (message_storage (message_handler example_platform store_message []))))
     = Some (DataReply None)"
  by (simp add: message_handler_def store_message_def get_message_def storeGameData_def
      getStoredGameData_def cleanupOldData_def example_platform_def caches_open_def
      caches_keys_def in_cache_def cache_of_def cache_put_def put_rejects_def vary_star_def cache_store_def
      cache_delete_def cache_keys_def
      cache_match_def resolve_url_def js_startsWith_def example_origin_def
      game_data_response_def expired_def entry_time_def maxAge_def CACHE_NAME_def
      progress_def example_parse_def known_documents_def quoted_def)

text \<open>
  Claim C4, amended. A sweep leaves the entry of \<^verbatim>\<open>/game-data\<close> in place, and the stored
  data readable as before, whenever that entry is not expired by the sweep's own
  measure (its age, counted from the time of its \<^verbatim>\<open>date\<close> header, is at most seven days).
\<close>

theorem sweep_keeps_unexpired_progress_record:
  assumes "distinct (cache_keys (cache_of st CACHE_NAME))"
    and "cache_match (cache_of st CACHE_NAME) (resolve_url (origin P) ''/game-data'') = Some r"
    and "\<not> expired P now r"
  shows "cache_match (cache_of (cleanupOldData P now st) CACHE_NAME)
           (resolve_url (origin P) ''/game-data'') = Some r
         \<and> snd (getStoredGameData P (cleanupOldData P now st)) = snd (getStoredGameData P st)"
  using assms(2,3)
  by (simp add: cleanup_match [OF assms(1)] getStoredGameData_value)

text \<open>
  Claim C4, amended, on an entry of \<^verbatim>\<open>/game-data\<close> dated 1 January 2026 and a sweep three
  days later.
\<close>

theorem sweep_keeps_unexpired_progress_record_witness:
  "snd (getStoredGameData example_platform
          (cleanupOldData example_platform (1767225600000 + 3 * 24 * 60 * 60 * 1000) dated_storage))
     = Some (JBool True)"
proof -
  have 1: "distinct (cache_keys (cache_of dated_storage CACHE_NAME))"
    by (simp add: dated_storage_def cache_of_def cache_keys_def)
  have 2: "cache_match (cache_of dated_storage CACHE_NAME)
             (resolve_url (origin example_platform) ''/game-data'') = Some dated_record"
    by (simp add: dated_storage_def cache_of_def cache_match_def example_platform_def
        resolve_url_def js_startsWith_def example_origin_def)
  have 3: "\<not> expired example_platform (1767225600000 + 3 * 24 * 60 * 60 * 1000) dated_record"
    by (simp add: expired_def entry_time_def dated_record_def example_platform_def
        example_date_def maxAge_def)
  have 4: "snd (getStoredGameData example_platform dated_storage) = Some (JBool True)"
    by (simp add: getStoredGameData_value 2)
       (simp add: dated_record_def example_platform_def example_parse_def known_documents_def)
  from sweep_keeps_unexpired_progress_record [OF 1 2 3] 4 show ?thesis
    by simp
qed




text \<open>
  Claim C10, as stated, fails on a clock that reads less than seven days past the
  epoch: at one second past the epoch the entry written by \<^verbatim>\<open>storeGameData\<close>, which has
  no \<^verbatim>\<open>date\<close> header, survives the sweep.
\<close>

theorem undated_entry_survives_early_clock:
  "map_of (headers (game_data_response ''true'')) ''date'' = None
   \<and> cache_match
       (cache_of (cleanupOldData example_platform 1000
          (storeGameData example_platform (Some (JBool True)) [])) CACHE_NAME)
       ''https://game.example/game-data''
     = Some (game_data_response ''true'')"
  by (simp add: storeGameData_def cleanupOldData_def example_platform_def caches_open_def
      caches_keys_def in_cache_def cache_of_def cache_put_def put_rejects_def vary_star_def cache_store_def
      cache_delete_def cache_keys_def
      cache_match_def resolve_url_def js_startsWith_def example_origin_def
      game_data_response_def expired_def entry_time_def maxAge_def CACHE_NAME_def)

text \<open>
  Claim C10, amended. The sweep takes the epoch as the time of an entry whose response
  has no \<^verbatim>\<open>date\<close> header, and a sweep whose clock reads more than seven days past the epoch
  deletes every such entry; the responses written by \<^verbatim>\<open>storeGameData\<close> have no \<^verbatim>\<open>date\<close>
  header.
\<close>

theorem undated_entry_is_swept:
  assumes "distinct (cache_keys (cache_of st CACHE_NAME))"
    and "cache_match (cache_of st CACHE_NAME) k = Some r"
    and "map_of (headers r) ''date'' = None"
    and "maxAge < now"
  shows "entry_time P r = Some 0
         \<and> cache_match (cache_of (cleanupOldData P now st) CACHE_NAME) k = None
         \<and> map_of (headers (game_data_response text)) ''date'' = None"
  using assms(2,3,4)
  by (simp add: cleanup_match [OF assms(1)] expired_def entry_time_def game_data_response_def)

text \<open>
  Claim C10, amended, on the entry written by \<^verbatim>\<open>storeGameData\<close> and a sweep on
  1 January 2026.
\<close>

theorem undated_entry_is_swept_witness:
  "cache_match
     (cache_of (cleanupOldData example_platform 1767225600000
        (storeGameData example_platform (Some (JBool True)) [])) CACHE_NAME)
     ''https://game.example/game-data'' = None"
proof -
  have 0: "cache_of (storeGameData example_platform (Some (JBool True)) []) CACHE_NAME
             = [(''https://game.example/game-data'', game_data_response ''true'')]"
    by (simp add: storeGameData_def example_platform_def caches_open_def caches_keys_def
        in_cache_def cache_of_def cache_put_def put_accepts_game_data cache_store_def
        cache_delete_def resolve_url_def js_startsWith_def example_origin_def)
  have 1: "distinct (cache_keys (cache_of (storeGameData example_platform (Some (JBool True)) [])
             CACHE_NAME))"
    by (simp add: 0 cache_keys_def)
  have 2: "cache_match (cache_of (storeGameData example_platform (Some (JBool True)) []) CACHE_NAME)
             ''https://game.example/game-data'' = Some (game_data_response ''true'')"
    by (simp add: 0 cache_match_def)
  have 3: "map_of (headers (game_data_response ''true'')) ''date'' = None"
    by (simp add: game_data_response_def)
  have 4: "maxAge < 1767225600000"
    by (simp add: maxAge_def)
  from undated_entry_is_swept [where P = example_platform, OF 1 2 3 4] show ?thesis
    by simp
qed

end
